theory Spec2Isabelle
  imports
    Complex_Main
    "HOL-Library.Char_ord"
    "HOL-Library.List_Lexorder"
    "HOL-Library.Product_Lexorder"
    "HOL-Library.Multiset"
begin

section \<open>Data model\<close>

text \<open>
  The script \<^verbatim>\<open>process_mining.py\<close> works on pandas data frames. A frame is modelled as
  the list of its rows, in row order. The raw frame read from the CSV file carries the
  three required columns and any number of further columns; the input contract gives
  \<^verbatim>\<open>case_id\<close> and \<^verbatim>\<open>activity_name\<close> as text and \<^verbatim>\<open>timestamp\<close> as text still to be parsed.
\<close>

record raw_row =
  case_id :: string
  activity_name :: string
  timestamp :: string
  other_columns :: "(string \<times> string) list"

text \<open>
  A row of the prepared log, under the pm4py column names
  \<^verbatim>\<open>case:concept:name\<close>, \<^verbatim>\<open>concept:name\<close>, \<^verbatim>\<open>time:timestamp\<close>. A parsed timestamp is
  a \<^verbatim>\<open>datetime64[ns]\<close> value: the number of nanoseconds since the epoch.
\<close>

record event =
  case_concept_name :: string
  concept_name :: string
  time_timestamp :: int

text \<open>
  The exceptions the modelled functions raise: the \<^verbatim>\<open>ValueError\<close> of
  \<^verbatim>\<open>prepare_event_log\<close>, whose message starts with the number of rows with an invalid
  timestamp; the \<^verbatim>\<open>ValueError\<close> that \<^verbatim>\<open>pd.to_datetime\<close> raises by itself on a column of
  mixed time zones, which carries no count; and the \<^verbatim>\<open>KeyError\<close> pandas raises when a
  frame is sorted by a column it does not have.
\<close>

datatype error =
  ValueError_invalid_timestamps nat
| ValueError_mixed_timezones
| KeyError string

text \<open>
  A Python float is either not-a-number or a finite number. Finite numbers are taken as
  exact rationals: rounding of the binary representation is not modelled. A value of
  the KPI dictionary that is \<^verbatim>\<open>float | None\<close> is a \<open>pyfloat option\<close>.
\<close>

datatype pyfloat = NaN | Fin rat

record throughput_stats =
  mean :: "pyfloat option"
  median :: "pyfloat option"
  min_hours :: "pyfloat option"
  max_hours :: "pyfloat option"
  p95 :: "pyfloat option"

text \<open>
  The dictionary \<^verbatim>\<open>compute_kpis\<close> returns. The two entries of \<^verbatim>\<open>time_window\<close> are kept
  as timestamps rather than their printed form; \<open>None\<close> is \<^verbatim>\<open>NaT\<close>.
\<close>

record kpis =
  cases :: int
  events :: int
  unique_activities :: int
  avg_events_per_case :: "pyfloat option"
  time_window :: "int option \<times> int option"
  throughput_hours :: throughput_stats
  activity_frequency_top10 :: "(string \<times> int) list"

text \<open>One row of the frame \<^verbatim>\<open>case_span\<close> built inside \<^verbatim>\<open>compute_kpis\<close>.\<close>

record span =
  span_case :: string
  span_start :: int
  span_end :: int
  span_hours :: rat

text \<open>One row of the edge table.\<close>

record edge_row =
  source :: string
  target :: string
  frequency :: int

text \<open>
  A Python dictionary keeps its keys in insertion order, and \<^verbatim>\<open>dfg.items()\<close> walks them in
  that order: a dictionary is an association list with distinct keys.
\<close>

type_synonym dfg = "((string \<times> string) \<times> int) list"

section \<open>pandas operations\<close>

text \<open>
  \<^verbatim>\<open>pd.to_datetime(col, errors="coerce")\<close>, called without \<^verbatim>\<open>utc=True\<close>. Every cell is
  parsed. The parser is a parameter; it may depend on the whole column, since pandas
  settles the format from the column's contents. A cell that parses gives its instant
  in nanoseconds and the UTC offset written in it, in seconds (\<open>None\<close> when the text
  has no offset); a cell that cannot be parsed gives \<open>None\<close>.

  \<^verbatim>\<open>errors="coerce"\<close> covers the cells that cannot be parsed: they become \<^verbatim>\<open>NaT\<close>. It does
  not cover a column whose parsed cells disagree on the offset: there the call raises
  \<^verbatim>\<open>ValueError\<close>, whatever else is in the column.
\<close>

definition parsed_offsets ::
  "(string list \<Rightarrow> string \<Rightarrow> (int \<times> int option) option) \<Rightarrow> string list \<Rightarrow> int option list" where
  "parsed_offsets parser col = remdups (List.map_filter (map_option snd) (map (parser col) col))"

definition to_datetime ::
  "(string list \<Rightarrow> string \<Rightarrow> (int \<times> int option) option) \<Rightarrow> string list
     \<Rightarrow> error + int option list" where
  "to_datetime parser col =
     (if 1 < length (parsed_offsets parser col) then Inl ValueError_mixed_timezones
      else Inr (map (map_option fst) (map (parser col) col)))"

text \<open>Distinct values in order of first appearance, and \<^verbatim>\<open>Series.nunique()\<close>.\<close>

definition first_seen :: "'a list \<Rightarrow> 'a list" where
  "first_seen xs = rev (remdups (rev xs))"

definition nunique :: "'a list \<Rightarrow> nat" where
  "nunique xs = length (first_seen xs)"

text \<open>
  \<^verbatim>\<open>DataFrame.sort_values(col, ascending=False)\<close> on an integer column, with the default
  \<^verbatim>\<open>kind="quicksort"\<close>. pandas computes from the values of the column the positions of
  the rows in their new order and takes the rows at these positions. The default sort
  is not stable, so which order rows of equal value come out in is a matter of the
  sorting routine: the routine is a parameter, a function from the column to the list
  of positions.
\<close>

definition sort_values_desc :: "(int list \<Rightarrow> nat list) \<Rightarrow> ('a \<Rightarrow> int) \<Rightarrow> 'a list \<Rightarrow> 'a list" where
  "sort_values_desc indexer col rows = map (\<lambda>i. rows ! i) (indexer (map col rows))"

text \<open>
  What every sorting routine guarantees of the positions it returns for a column: they
  are the positions of the column, each once, and the values at them descend.
\<close>

definition descending_order :: "int list \<Rightarrow> nat list \<Rightarrow> bool" where
  "descending_order keys ix =
     (mset ix = mset [0..<length keys]
      \<and> sorted_wrt (\<lambda>a b. a \<ge> b) (map (\<lambda>i. keys ! i) ix))"

text \<open>
  Two routines with this guarantee: one leaves rows of equal value in the order they
  had, the other turns their order round.
\<close>

definition argsort_keeping :: "int list \<Rightarrow> nat list" where
  "argsort_keeping keys = sort_key (\<lambda>i. - (keys ! i)) [0..<length keys]"


text \<open>
  \<^verbatim>\<open>Series.value_counts()\<close>: one entry per distinct value with the number of its
  occurrences, most frequent first.
\<close>

definition value_counts :: "'a list \<Rightarrow> ('a \<times> int) list" where
  "value_counts xs =
     sort_key (\<lambda>p. - snd p) (map (\<lambda>k. (k, int (count_list xs k))) (first_seen xs))"

text \<open>\<^verbatim>\<open>Series.min()\<close> and \<^verbatim>\<open>Series.max()\<close> of a timestamp column; \<^verbatim>\<open>NaT\<close> when it is empty.\<close>

definition timestamp_min :: "int list \<Rightarrow> int option" where
  "timestamp_min xs = (if xs = [] then None else Some (Min (set xs)))"

definition timestamp_max :: "int list \<Rightarrow> int option" where
  "timestamp_max xs = (if xs = [] then None else Some (Max (set xs)))"

text \<open>
  The reductions of a float series. Each gives \<^verbatim>\<open>nan\<close> on the empty series. The median is
  the middle order statistic, or the mean of the two middle ones; \<^verbatim>\<open>quantile(q)\<close> uses the
  default \<^verbatim>\<open>interpolation="linear"\<close>: with \<open>i\<close> the integer part and \<open>g\<close> the fractional
  part of \<open>q * (n - 1)\<close>, the result is \<open>s[i] + (s[i+1] - s[i]) * g\<close>, the upper index kept
  within the series.
\<close>

definition series_mean :: "rat list \<Rightarrow> pyfloat" where
  "series_mean xs = (if xs = [] then NaN else Fin (sum_list xs / of_nat (length xs)))"

definition series_median :: "rat list \<Rightarrow> pyfloat" where
  "series_median xs =
     (if xs = [] then NaN
      else let s = sort xs; n = length s in
        if odd n then Fin (s ! (n div 2))
        else Fin ((s ! (n div 2 - 1) + s ! (n div 2)) / 2))"

definition series_min :: "rat list \<Rightarrow> pyfloat" where
  "series_min xs = (if xs = [] then NaN else Fin (Min (set xs)))"

definition series_max :: "rat list \<Rightarrow> pyfloat" where
  "series_max xs = (if xs = [] then NaN else Fin (Max (set xs)))"

definition series_quantile :: "rat \<Rightarrow> rat list \<Rightarrow> pyfloat" where
  "series_quantile q xs =
     (if xs = [] then NaN
      else let s = sort xs;
               n = length s;
               pos = q * of_nat (n - 1);
               i = nat \<lfloor>pos\<rfloor>;
               j = min (i + 1) (n - 1);
               g = pos - of_nat i
           in Fin (s ! i + (s ! j - s ! i) * g))"

text \<open>\<^verbatim>\<open>Timedelta.total_seconds()\<close> of a difference of two nanosecond timestamps.\<close>

definition total_seconds :: "int \<Rightarrow> rat" where
  "total_seconds d = of_int d / 1000000000"

section \<open>The functions of the script\<close>

text \<open>
  Modelled from the spec: \<^verbatim>\<open>pm4py.format_dataframe\<close> is a library call whose code is not
  part of the repository. The specification's log construction ends with the sort and
  produces the log without a further step, so on a frame that already has the three
  standard columns, text labels and parsed timestamps the call returns the rows as they
  are. The check for the three pm4py columns that follows it in \<^verbatim>\<open>prepare_event_log\<close>
  then always passes: an \<open>event\<close> has all three.
\<close>

definition format_dataframe :: "event list \<Rightarrow> event list" where
  "format_dataframe df = df"

definition prepare_event_log ::
  "(string list \<Rightarrow> string \<Rightarrow> (int \<times> int option) option) \<Rightarrow> raw_row list
     \<Rightarrow> error + event list" where
  "prepare_event_log parser df_raw =
     (let df = map (\<lambda>r. (case_id r, activity_name r, timestamp r)) df_raw
      in case to_datetime parser (map (\<lambda>(c, a, t). t) df) of
           Inl err \<Rightarrow> Inl err
         | Inr stamps \<Rightarrow>
             if list_ex (\<lambda>t. t = None) stamps
             then Inl (ValueError_invalid_timestamps (length (filter (\<lambda>t. t = None) stamps)))
             else
               let df = map2 (\<lambda>(c, a, _) t.
                          \<lparr>case_concept_name = c, concept_name = a, time_timestamp = the t\<rparr>)
                          df stamps;
                   df = sort_key (\<lambda>e. (case_concept_name e, time_timestamp e)) df;
                   df = format_dataframe df
               in Inr df)"

text \<open>
  \<^verbatim>\<open>df.groupby("case:concept:name")["time:timestamp"].agg(start="min", end="max")\<close> and
  the added column \<^verbatim>\<open>throughput_hours\<close>: one row per case, the cases in sorted order.
\<close>

definition case_span :: "event list \<Rightarrow> span list" where
  "case_span df =
     map (\<lambda>c. let g = map time_timestamp (filter (\<lambda>e. case_concept_name e = c) df);
                  s = Min (set g);
                  e = Max (set g)
              in \<lparr>span_case = c, span_start = s, span_end = e,
                  span_hours = total_seconds (e - s) / 3600\<rparr>)
         (sort (remdups (map case_concept_name df)))"

definition compute_kpis :: "event list \<Rightarrow> kpis" where
  "compute_kpis df =
     (let n_cases = nunique (map case_concept_name df);
          n_events = length df;
          n_activities = nunique (map concept_name df);
          activity_freq = value_counts (map concept_name df);
          th = map span_hours (case_span df)
      in \<lparr>cases = int n_cases,
          events = int n_events,
          unique_activities = int n_activities,
          avg_events_per_case =
            (if n_cases \<noteq> 0 then Some (Fin (of_nat n_events / of_nat n_cases)) else None),
          time_window =
            (timestamp_min (map time_timestamp df), timestamp_max (map time_timestamp df)),
          throughput_hours =
            \<lparr>mean = Some (series_mean th),
             median = Some (series_median th),
             min_hours = Some (series_min th),
             max_hours = Some (series_max th),
             p95 = Some (series_quantile (95 / 100) th)\<rparr>,
          activity_frequency_top10 = take 10 activity_freq\<rparr>)"

text \<open>
  Modelled from the spec: \<^verbatim>\<open>discover_dfg\<close> hands the log to \<^verbatim>\<open>pm4py.discover_dfg\<close>, a
  library call whose code is not part of the repository. The specification gives the
  algorithm: the events are grouped into cases by case id (grouping, not sorting); for
  each case's activity sequence the frequency of every adjacent pair is incremented, the
  first activity is counted as a start activity and the last as an end activity; the
  edges are held in a mapping keyed by the ordered pair, filled in a single pass per
  case.
\<close>

text \<open>
  Modelled from the spec: the increment of one key of a frequency mapping inside the
  missing \<^verbatim>\<open>pm4py.discover_dfg\<close>; a key not yet present is added at the end with
  count 1.
\<close>

fun increment :: "'k \<Rightarrow> ('k \<times> int) list \<Rightarrow> ('k \<times> int) list" where
  "increment k [] = [(k, 1)]"
| "increment k ((k', n) # d) =
     (if k' = k then (k', n + 1) # d else (k', n) # increment k d)"

text \<open>
  Modelled from the spec: the partition of the log into cases inside the missing
  \<^verbatim>\<open>pm4py.discover_dfg\<close>, each case the events of one case id in log order, the cases in
  order of first appearance.
\<close>

definition cases_of :: "event list \<Rightarrow> event list list" where
  "cases_of df =
     map (\<lambda>c. filter (\<lambda>e. case_concept_name e = c) df)
         (first_seen (map case_concept_name df))"

text \<open>
  Modelled from the spec: the pass over one case's activity sequence inside the missing
  \<^verbatim>\<open>pm4py.discover_dfg\<close>, on the triple of edge frequencies, start activities and end
  activities.
\<close>

fun scan_case ::
  "string list \<Rightarrow> dfg \<times> (string \<times> int) list \<times> (string \<times> int) list
     \<Rightarrow> dfg \<times> (string \<times> int) list \<times> (string \<times> int) list" where
  "scan_case [] st = st"
| "scan_case (a # as) (d, start_acts, end_acts) =
     (fold increment (zip (a # as) as) d,
      increment a start_acts,
      increment (last (a # as)) end_acts)"

text \<open>
  Modelled from the spec: the missing \<^verbatim>\<open>pm4py.discover_dfg\<close> as the pass over all cases,
  starting from three empty mappings.
\<close>

definition discover_dfg :: "event list \<Rightarrow> dfg \<times> (string \<times> int) list \<times> (string \<times> int) list" where
  "discover_dfg df = fold scan_case (map (map concept_name) (cases_of df)) ([], [], [])"

text \<open>
  \<^verbatim>\<open>dfg_to_edges_df\<close>: one row per item of the dictionary, then the frame of the rows is
  sorted by its \<^verbatim>\<open>frequency\<close> column, largest first, by the default sorting routine.
  \<^verbatim>\<open>pd.DataFrame([])\<close> has no columns at all, so for an empty dictionary
  \<^verbatim>\<open>sort_values("frequency")\<close> raises \<^verbatim>\<open>KeyError\<close>.
\<close>

definition edge_rows :: "dfg \<Rightarrow> edge_row list" where
  "edge_rows d = map (\<lambda>((src, tgt), freq). \<lparr>source = src, target = tgt, frequency = freq\<rparr>) d"

definition dfg_to_edges_df :: "(int list \<Rightarrow> nat list) \<Rightarrow> dfg \<Rightarrow> error + edge_row list" where
  "dfg_to_edges_df indexer d =
     (let rows = edge_rows d
      in if rows = [] then Inl (KeyError ''frequency'')
         else Inr (sort_values_desc indexer frequency rows))"

text \<open>
  The computation of \<^verbatim>\<open>main\<close> between loading the CSV file and exporting the results.
\<close>

definition run ::
  "(int list \<Rightarrow> nat list) \<Rightarrow> (string list \<Rightarrow> string \<Rightarrow> (int \<times> int option) option)
     \<Rightarrow> raw_row list \<Rightarrow> error + kpis \<times> edge_row list" where
  "run indexer parser df_raw =
     (case prepare_event_log parser df_raw of
        Inl err \<Rightarrow> Inl err
      | Inr df_log \<Rightarrow>
          let k = compute_kpis df_log;
              (d, start_acts, end_acts) = discover_dfg df_log
          in (case dfg_to_edges_df indexer d of
                Inl err \<Rightarrow> Inl err
              | Inr edges_df \<Rightarrow> Inr (k, edges_df)))"

section \<open>Statements of the specification\<close>

text \<open>
  The edge order the specification asks for: by descending frequency, rows of equal
  frequency by source activity name and then by target activity name.
\<close>

definition ranked_by_frequency_then_names :: "edge_row list \<Rightarrow> bool" where
  "ranked_by_frequency_then_names rows =
     sorted (map (\<lambda>r. (- frequency r, source r, target r)) rows)"

text \<open>
  The rows of the raw table as events, in input order: the frame of
  \<^verbatim>\<open>prepare_event_log\<close> after the columns are renamed and before it is sorted.
\<close>

definition input_events ::
  "(string list \<Rightarrow> string \<Rightarrow> (int \<times> int option) option) \<Rightarrow> raw_row list \<Rightarrow> event list" where
  "input_events parser df_raw =
     map (\<lambda>r. \<lparr>case_concept_name = case_id r, concept_name = activity_name r,
               time_timestamp = fst (the (parser (map timestamp df_raw) (timestamp r)))\<rparr>)
       df_raw"

text \<open>The rows whose timestamp cannot be parsed.\<close>

definition unparseable_rows ::
  "(string list \<Rightarrow> string \<Rightarrow> (int \<times> int option) option) \<Rightarrow> raw_row list \<Rightarrow> raw_row list" where
  "unparseable_rows parser df_raw =
     filter (\<lambda>r. parser (map timestamp df_raw) (timestamp r) = None) df_raw"

text \<open>
  The invariant of an event log: within each case the events are in ascending order of
  timestamp.
\<close>

definition within_case_sorted :: "event list \<Rightarrow> bool" where
  "within_case_sorted df =
     list_all (\<lambda>c. sorted (map time_timestamp (filter (\<lambda>e. case_concept_name e = c) df)))
       (first_seen (map case_concept_name df))"

section \<open>The scenario of the specification\<close>

text \<open>
  Two cases: A with order at 10:00, ship at 11:00 and close at 13:00, B with order at
  09:00 and close at 09:30. The rows come in no particular order; a timestamp is the
  time of day in nanoseconds.
\<close>

definition scenario_parser :: "string list \<Rightarrow> string \<Rightarrow> (int \<times> int option) option" where
  "scenario_parser col =
     map_of [(''09:00'', (32400000000000, None)), (''09:30'', (34200000000000, None)),
             (''10:00'', (36000000000000, None)), (''11:00'', (39600000000000, None)),
             (''13:00'', (46800000000000, None))]"

definition scenario_table :: "raw_row list" where
  "scenario_table =
     [\<lparr>case_id = ''B'', activity_name = ''order'', timestamp = ''09:00'', other_columns = []\<rparr>,
      \<lparr>case_id = ''A'', activity_name = ''order'', timestamp = ''10:00'', other_columns = []\<rparr>,
      \<lparr>case_id = ''A'', activity_name = ''close'', timestamp = ''13:00'', other_columns = []\<rparr>,
      \<lparr>case_id = ''B'', activity_name = ''close'', timestamp = ''09:30'', other_columns = []\<rparr>,
      \<lparr>case_id = ''A'', activity_name = ''ship'', timestamp = ''11:00'', other_columns = []\<rparr>]"

definition scenario_log :: "event list" where
  "scenario_log =
     [\<lparr>case_concept_name = ''A'', concept_name = ''order'', time_timestamp = 36000000000000\<rparr>,
      \<lparr>case_concept_name = ''A'', concept_name = ''ship'', time_timestamp = 39600000000000\<rparr>,
      \<lparr>case_concept_name = ''A'', concept_name = ''close'', time_timestamp = 46800000000000\<rparr>,
      \<lparr>case_concept_name = ''B'', concept_name = ''order'', time_timestamp = 32400000000000\<rparr>,
      \<lparr>case_concept_name = ''B'', concept_name = ''close'', time_timestamp = 34200000000000\<rparr>]"

text \<open>The same table with a further column.\<close>

definition scenario_table_resource :: "raw_row list" where
  "scenario_table_resource =
     map (\<lambda>r. r\<lparr>other_columns := [(''resource'', ''alice'')]\<rparr>) scenario_table"

text \<open>
  A table of one case whose two timestamps are written with different UTC offsets:
  11:00 at +01:00 is 10:00 UTC, 14:00 at +02:00 is 12:00 UTC. Both parse.
\<close>

definition offset_parser :: "string list \<Rightarrow> string \<Rightarrow> (int \<times> int option) option" where
  "offset_parser col =
     map_of [(''2025-01-01 11:00:00+01:00'', (1735725600000000000, Some 3600)),
             (''2025-01-01 14:00:00+02:00'', (1735732800000000000, Some 7200))]"

definition mixed_offset_table :: "raw_row list" where
  "mixed_offset_table =
     [\<lparr>case_id = ''A'', activity_name = ''order'',
       timestamp = ''2025-01-01 11:00:00+01:00'', other_columns = []\<rparr>,
      \<lparr>case_id = ''A'', activity_name = ''ship'',
       timestamp = ''2025-01-01 14:00:00+02:00'', other_columns = []\<rparr>]"

text \<open>
  The throughput of a case as the specification states it: the timestamp of the last
  event of the case minus the timestamp of its first event, in hours; and the
  throughputs of all cases of a log, one per case.
\<close>

definition case_throughput :: "event list \<Rightarrow> string \<Rightarrow> rat" where
  "case_throughput df c =
     (let evs = filter (\<lambda>e. case_concept_name e = c) df
      in total_seconds (time_timestamp (last evs) - time_timestamp (hd evs)) / 3600)"

definition case_throughputs :: "event list \<Rightarrow> (string \<times> rat) list" where
  "case_throughputs df =
     map (\<lambda>c. (c, case_throughput df c)) (sort (remdups (map case_concept_name df)))"

text \<open>A log of one case with eleven events, each of an activity of its own.\<close>

definition eleven_activities_log :: "event list" where
  "eleven_activities_log =
     map (\<lambda>a. \<lparr>case_concept_name = ''A'', concept_name = a, time_timestamp = 0\<rparr>)
       [''a'', ''b'', ''c'', ''d'', ''e'', ''f'', ''g'', ''h'', ''i'', ''j'', ''k'']"

text \<open>
  The percentile of the specification: for the sorted list of N values the position of
  the p-th percentile is \<open>p * (N - 1)\<close>, and the value is interpolated linearly between
  the order statistics at the floor and at the ceiling of the position.
\<close>

definition linear_percentile :: "rat \<Rightarrow> rat list \<Rightarrow> rat" where
  "linear_percentile p xs =
     (let s = sort xs;
          pos = p * of_nat (length s - 1);
          lo = nat \<lfloor>pos\<rfloor>;
          hi = nat \<lceil>pos\<rceil>
      in s ! lo + (pos - of_nat lo) * (s ! hi - s ! lo))"

section \<open>The KPIs of an empty log\<close>

lemma compute_kpis_Nil:
  "compute_kpis [] =
     \<lparr>cases = 0, events = 0, unique_activities = 0, avg_events_per_case = None,
      time_window = (None, None),
      throughput_hours = \<lparr>mean = Some NaN, median = Some NaN, min_hours = Some NaN,
                           max_hours = Some NaN, p95 = Some NaN\<rparr>,
      activity_frequency_top10 = []\<rparr>"
  by (simp add: compute_kpis_def nunique_def first_seen_def value_counts_def
       case_span_def timestamp_min_def timestamp_max_def series_mean_def series_median_def
       series_min_def series_max_def series_quantile_def)

text \<open>
  Claim C1, as the code has it. On a log without rows \<^verbatim>\<open>compute_kpis\<close> returns its
  dictionary: the case and event counts are 0 and \<^verbatim>\<open>avg_events_per_case\<close> is \<^verbatim>\<open>None\<close>, but
  each of the five throughput statistics is the float \<^verbatim>\<open>nan\<close> (the reduction of an empty
  series passed through \<^verbatim>\<open>float\<close>), not an absent value.
\<close>

theorem empty_log_kpis:
  "cases (compute_kpis []) = 0
   \<and> events (compute_kpis []) = 0
   \<and> avg_events_per_case (compute_kpis []) = None
   \<and> mean (throughput_hours (compute_kpis [])) = Some NaN
   \<and> median (throughput_hours (compute_kpis [])) = Some NaN
   \<and> min_hours (throughput_hours (compute_kpis [])) = Some NaN
   \<and> max_hours (throughput_hours (compute_kpis [])) = Some NaN
   \<and> p95 (throughput_hours (compute_kpis [])) = Some NaN"
  by (simp add: compute_kpis_Nil)

text \<open>
  Claim C1 as stated asks for absent throughput statistics on the empty log; the
  statistics are present and are \<^verbatim>\<open>nan\<close>.
\<close>

theorem empty_log_statistics_absent_counterexample:
  "\<not> (cases (compute_kpis []) = 0
      \<and> events (compute_kpis []) = 0
      \<and> avg_events_per_case (compute_kpis []) = None
      \<and> mean (throughput_hours (compute_kpis [])) = None
      \<and> median (throughput_hours (compute_kpis [])) = None
      \<and> min_hours (throughput_hours (compute_kpis [])) = None
      \<and> max_hours (throughput_hours (compute_kpis [])) = None
      \<and> p95 (throughput_hours (compute_kpis [])) = None)"
  by (simp add: compute_kpis_Nil)

section \<open>The edge table\<close>

text \<open>
  Claim C2 at a log of one event. The log is valid, its only case has a single event,
  so no edge is discovered; \<^verbatim>\<open>dfg_to_edges_df\<close> then builds a frame without columns and
  sorting it by \<^verbatim>\<open>frequency\<close> raises \<^verbatim>\<open>KeyError\<close>, whatever the sorting routine: the
  edge-table step is not total.
\<close>

theorem single_event_log_edge_table_raises:
  "run indexer (\<lambda>col. map_of [(''2025-01-01 10:00:00'', (1735725600000000000, None))])
       [\<lparr>case_id = ''A'', activity_name = ''order'', timestamp = ''2025-01-01 10:00:00'',
         other_columns = []\<rparr>]
     = Inl (KeyError ''frequency'')"
  by (simp add: run_def prepare_event_log_def to_datetime_def parsed_offsets_def
       List.map_filter_simps format_dataframe_def discover_dfg_def cases_of_def first_seen_def
       dfg_to_edges_df_def edge_rows_def)

lemma sorted_desc_of_negated:
  fixes col :: "'a \<Rightarrow> int"
  shows "sorted (map (\<lambda>r. - col r) rows) \<Longrightarrow> sorted_wrt (\<lambda>a b. a \<ge> b) (map col rows)"
  by (induction rows) auto




text \<open>Both routines keep the guarantee, on every column.\<close>

lemma argsort_keeping_descending: "descending_order keys (argsort_keeping keys)"
  unfolding descending_order_def argsort_keeping_def
  by (simp add: sorted_desc_of_negated [OF sorted_sort_key])




text \<open>
  Two dictionaries with the same two edges of frequency 1, listed in either order. A
  sorting routine sees the same column \<open>[1, 1]\<close> for both, so it returns the same
  positions for both, and the two tables cannot both be in the order of the names.
\<close>

lemma same_column_same_positions:
  "map frequency (edge_rows [((''b'', ''a''), 1), ((''a'', ''b''), 1)])
     = map frequency (edge_rows [((''a'', ''b''), 1), ((''b'', ''a''), 1)])"
  by (simp add: edge_rows_def)

lemma two_positions:
  assumes "mset ix = mset [0, Suc 0]"
  shows "ix = [0, Suc 0] \<or> ix = [Suc 0, 0]"
proof -
  have "length ix = 2"
    using mset_eq_length [OF assms] by simp
  then obtain a b where ix: "ix = [a, b]"
    by (cases ix; cases "tl ix") auto
  have "set ix = {0, Suc 0}"
    using mset_eq_setD [OF assms] by simp
  then show ?thesis
    using assms by (auto simp: ix doubleton_eq_iff)
qed

lemma no_routine_ranks_both:
  assumes "descending_order [1, 1] (indexer [1, 1])"
  shows "\<not> (\<exists>t1 t2.
            dfg_to_edges_df indexer [((''b'', ''a''), 1), ((''a'', ''b''), 1)] = Inr t1
            \<and> dfg_to_edges_df indexer [((''a'', ''b''), 1), ((''b'', ''a''), 1)] = Inr t2
            \<and> ranked_by_frequency_then_names t1 \<and> ranked_by_frequency_then_names t2)"
proof -
  have "mset (indexer [1, 1]) = mset [0, Suc 0]"
    using assms by (simp add: descending_order_def upt_rec numeral_2_eq_2)
  then have "indexer [1, 1] = [0, Suc 0] \<or> indexer [1, 1] = [Suc 0, 0]"
    by (rule two_positions)
  then show ?thesis
    by (auto simp: dfg_to_edges_df_def edge_rows_def sort_values_desc_def
          ranked_by_frequency_then_names_def)
qed


section \<open>Construction of the event log\<close>

lemma map2_same: "map2 f (map g xs) (map h xs) = map (\<lambda>x. f (g x) (h x)) xs"
  by (induction xs) auto

lemma coerced_cells:
  "list_ex (\<lambda>t. t = None) (map (map_option fst) (map (parser col) (map timestamp rs)))
     \<longleftrightarrow> filter (\<lambda>r. parser col (timestamp r) = None) rs \<noteq> []"
  by (induction rs) auto

lemma prepare_event_log_cases:
  "prepare_event_log parser df_raw =
     (if 1 < length (parsed_offsets parser (map timestamp df_raw))
      then Inl ValueError_mixed_timezones
      else if unparseable_rows parser df_raw = []
      then Inr (sort_key (\<lambda>e. (case_concept_name e, time_timestamp e))
                  (input_events parser df_raw))
      else Inl (ValueError_invalid_timestamps (length (unparseable_rows parser df_raw))))"
proof -
  let ?col = "map timestamp df_raw"
  let ?stamps = "map (map_option fst) (map (parser ?col) ?col)"
  have col: "map (\<lambda>(c, a, t). t) (map (\<lambda>r. (case_id r, activity_name r, timestamp r)) df_raw)
               = ?col"
    by simp
  have ex: "list_ex (\<lambda>t. t = None) ?stamps \<longleftrightarrow> unparseable_rows parser df_raw \<noteq> []"
    unfolding unparseable_rows_def by (rule coerced_cells)
  have len: "length (filter (\<lambda>t. t = None) ?stamps) = length (unparseable_rows parser df_raw)"
    by (simp add: unparseable_rows_def filter_map comp_def)
  have rows: "map2 (\<lambda>(c, a, _) t.
                      \<lparr>case_concept_name = c, concept_name = a, time_timestamp = the t\<rparr>)
                (map (\<lambda>r. (case_id r, activity_name r, timestamp r)) df_raw)
                ?stamps = input_events parser df_raw"
    if "unparseable_rows parser df_raw = []"
  proof -
    have some: "\<forall>r \<in> set df_raw. parser ?col (timestamp r) \<noteq> None"
      using that by (simp add: unparseable_rows_def filter_empty_conv)
    show ?thesis
      unfolding input_events_def map_map
      by (subst map2_same) (use some in \<open>auto simp: comp_def option.map_sel\<close>)
  qed
  show ?thesis
  proof (cases "1 < length (parsed_offsets parser ?col)")
    case True
    then have "to_datetime parser ?col = Inl ValueError_mixed_timezones"
      by (simp add: to_datetime_def)
    then show ?thesis
      unfolding prepare_event_log_def Let_def col using True by simp
  next
    case agree: False
    then have td: "to_datetime parser ?col = Inr ?stamps"
      by (simp add: to_datetime_def)
    show ?thesis
    proof (cases "unparseable_rows parser df_raw = []")
      case True
      show ?thesis
        unfolding prepare_event_log_def Let_def col td sum.case format_dataframe_def
          ex len rows [OF True]
        using True agree by simp
    next
      case False
      show ?thesis
        unfolding prepare_event_log_def Let_def col td sum.case format_dataframe_def ex len
        using False agree by simp
    qed
  qed
qed

lemma sorted_pair_filter_fst:
  fixes f :: "'a \<Rightarrow> 'b::linorder" and g :: "'a \<Rightarrow> 'c::linorder"
  shows "sorted (map (\<lambda>e. (f e, g e)) xs) \<Longrightarrow> sorted (map g (filter (\<lambda>e. f e = c) xs))"
  by (induction xs) (auto simp: less_eq_prod_def)

lemma scenario_offsets: "parsed_offsets scenario_parser (map timestamp scenario_table) = [None]"
  by (simp add: parsed_offsets_def List.map_filter_simps scenario_parser_def scenario_table_def)

lemma scenario_unparseable: "unparseable_rows scenario_parser scenario_table = []"
  by (simp add: unparseable_rows_def scenario_parser_def scenario_table_def)

lemma scenario_prepared: "prepare_event_log scenario_parser scenario_table = Inr scenario_log"
  by (simp add: prepare_event_log_cases scenario_unparseable scenario_offsets)
     (simp add: input_events_def scenario_parser_def scenario_table_def scenario_log_def)

text \<open>
  What construction does on a column whose parsed timestamps agree on the offset: the
  error with the number of unparseable rows exactly when there is such a row, and
  otherwise a log that holds every input row.
\<close>

lemma construction_when_offsets_agree:
  assumes "length (parsed_offsets parser (map timestamp df_raw)) \<le> 1"
  shows "(unparseable_rows parser df_raw \<noteq> [] \<longrightarrow>
            prepare_event_log parser df_raw
              = Inl (ValueError_invalid_timestamps (length (unparseable_rows parser df_raw))))
       \<and> (unparseable_rows parser df_raw = [] \<longrightarrow>
            (\<exists>df. prepare_event_log parser df_raw = Inr df
                  \<and> mset df = mset (input_events parser df_raw)))"
  using assms by (simp add: prepare_event_log_cases)

text \<open>
  Claim C5 at a table of two rows whose timestamps both parse and carry different UTC
  offsets. No row is unparseable, yet construction does not succeed: \<^verbatim>\<open>pd.to_datetime\<close>
  raises its own \<^verbatim>\<open>ValueError\<close>, which \<^verbatim>\<open>prepare_event_log\<close> does not catch and which
  reports no count.
\<close>

theorem mixed_offsets_abort_construction:
  "unparseable_rows offset_parser mixed_offset_table = []
   \<and> prepare_event_log offset_parser mixed_offset_table = Inl ValueError_mixed_timezones"
  by (simp add: prepare_event_log_cases)
     (simp add: unparseable_rows_def parsed_offsets_def List.map_filter_simps offset_parser_def
        mixed_offset_table_def)

text \<open>
  Claim C9. The constructed log is sorted by the pair of case id and timestamp, so
  within each case the timestamps ascend; the sort is stable: the events of one case
  with one timestamp appear in the order of the input rows, and no event is lost or
  added.
\<close>

theorem prepare_event_log_stable_sort:
  assumes "prepare_event_log parser df_raw = Inr df"
  shows "sorted (map (\<lambda>e. (case_concept_name e, time_timestamp e)) df)
       \<and> (\<forall>c. sorted (map time_timestamp (filter (\<lambda>e. case_concept_name e = c) df)))
       \<and> (\<forall>c t. filter (\<lambda>e. case_concept_name e = c \<and> time_timestamp e = t) df
                 = filter (\<lambda>e. case_concept_name e = c \<and> time_timestamp e = t)
                     (input_events parser df_raw))
       \<and> mset df = mset (input_events parser df_raw)"
proof -
  let ?key = "\<lambda>e. (case_concept_name e, time_timestamp e)"
  have df: "df = sort_key ?key (input_events parser df_raw)"
    using assms by (auto simp: prepare_event_log_cases split: if_splits)
  have 1: "sorted (map ?key df)"
    by (simp add: df)
  have 2: "sorted (map time_timestamp (filter (\<lambda>e. case_concept_name e = c) df))" for c
    using 1 by (rule sorted_pair_filter_fst)
  have 3: "filter (\<lambda>e. case_concept_name e = c \<and> time_timestamp e = t) df
         = filter (\<lambda>e. case_concept_name e = c \<and> time_timestamp e = t)
             (input_events parser df_raw)" for c t
    using sort_key_stable [of ?key "(c, t)" "input_events parser df_raw"] by (simp add: df)
  have 4: "mset df = mset (input_events parser df_raw)"
    by (simp add: df)
  show ?thesis using 1 2 3 4 by blast
qed

theorem prepare_event_log_stable_sort_witness:
  "prepare_event_log scenario_parser scenario_table = Inr scenario_log
   \<and> sorted (map (\<lambda>e. (case_concept_name e, time_timestamp e)) scenario_log)
   \<and> (\<forall>c. sorted (map time_timestamp (filter (\<lambda>e. case_concept_name e = c) scenario_log)))
   \<and> (\<forall>c t. filter (\<lambda>e. case_concept_name e = c \<and> time_timestamp e = t) scenario_log
             = filter (\<lambda>e. case_concept_name e = c \<and> time_timestamp e = t)
                 (input_events scenario_parser scenario_table))
   \<and> mset scenario_log = mset (input_events scenario_parser scenario_table)"
  using scenario_prepared prepare_event_log_stable_sort [OF scenario_prepared]
  by simp

text \<open>
  Claim C10. Only the columns \<^verbatim>\<open>case_id\<close>, \<^verbatim>\<open>activity_name\<close> and \<^verbatim>\<open>timestamp\<close> of the raw
  table are read: two tables with the same rows in these three columns give the same
  log (or the same error), the same KPIs, the same DFG and the same edge table.
\<close>

theorem other_columns_are_discarded:
  assumes "map (\<lambda>r. (case_id r, activity_name r, timestamp r)) t1
         = map (\<lambda>r. (case_id r, activity_name r, timestamp r)) t2"
  shows "prepare_event_log parser t1 = prepare_event_log parser t2
       \<and> map_sum id compute_kpis (prepare_event_log parser t1)
           = map_sum id compute_kpis (prepare_event_log parser t2)
       \<and> map_sum id discover_dfg (prepare_event_log parser t1)
           = map_sum id discover_dfg (prepare_event_log parser t2)
       \<and> run indexer parser t1 = run indexer parser t2"
proof -
  have "prepare_event_log parser t1 = prepare_event_log parser t2"
    unfolding prepare_event_log_def using assms by simp
  then show ?thesis
    by (simp add: run_def)
qed

theorem other_columns_are_discarded_witness:
  "scenario_table_resource \<noteq> scenario_table
   \<and> map (\<lambda>r. (case_id r, activity_name r, timestamp r)) scenario_table_resource
       = map (\<lambda>r. (case_id r, activity_name r, timestamp r)) scenario_table
   \<and> prepare_event_log scenario_parser scenario_table_resource = Inr scenario_log
   \<and> run argsort_keeping scenario_parser scenario_table_resource
       = run argsort_keeping scenario_parser scenario_table"
proof -
  have h: "map (\<lambda>r. (case_id r, activity_name r, timestamp r)) scenario_table_resource
         = map (\<lambda>r. (case_id r, activity_name r, timestamp r)) scenario_table"
    by (simp add: scenario_table_resource_def scenario_table_def)
  have d: "scenario_table_resource \<noteq> scenario_table"
    by (simp add: scenario_table_resource_def scenario_table_def)
  show ?thesis
    using h d scenario_prepared
      other_columns_are_discarded [OF h, where parser = scenario_parser
        and indexer = argsort_keeping]
    by simp
qed

section \<open>Discovery of the directly-follows graph\<close>





lemma first_seen_set [simp]: "set (first_seen xs) = set xs"
  by (simp add: first_seen_def)

lemma first_seen_distinct [simp]: "distinct (first_seen xs)"
  by (simp add: first_seen_def)

lemma first_seen_length: "length (first_seen xs) = card (set xs)"
  by (simp add: first_seen_def length_remdups_card_conv)




section \<open>The counts of the KPI record\<close>

lemma compute_kpis_cases: "cases (compute_kpis df) = int (nunique (map case_concept_name df))"
  by (simp add: compute_kpis_def Let_def)

lemma compute_kpis_events: "events (compute_kpis df) = int (length df)"
  by (simp add: compute_kpis_def Let_def)

lemma compute_kpis_top10:
  "activity_frequency_top10 (compute_kpis df) = take 10 (value_counts (map concept_name df))"
  by (simp add: compute_kpis_def Let_def)

lemma compute_kpis_throughput:
  "throughput_hours (compute_kpis df) =
     \<lparr>mean = Some (series_mean (map span_hours (case_span df))),
      median = Some (series_median (map span_hours (case_span df))),
      min_hours = Some (series_min (map span_hours (case_span df))),
      max_hours = Some (series_max (map span_hours (case_span df))),
      p95 = Some (series_quantile (95 / 100) (map span_hours (case_span df)))\<rparr>"
  by (simp add: compute_kpis_def Let_def)

lemma value_counts_mset:
  "mset (value_counts xs) = mset (map (\<lambda>k. (k, int (count_list xs k))) (first_seen xs))"
  by (simp add: value_counts_def)

lemma value_counts_set:
  "set (value_counts xs) = (\<lambda>k. (k, int (count_list xs k))) ` set xs"
  using arg_cong [OF value_counts_mset, of set_mset xs] by simp

lemma value_counts_length: "length (value_counts xs) = card (set xs)"
  by (simp add: value_counts_def first_seen_length)

lemma value_counts_distinct: "distinct (map fst (value_counts xs))"
proof -
  have "mset (map fst (value_counts xs)) = mset (first_seen xs)"
    using arg_cong [OF value_counts_mset, of "image_mset fst" xs]
    by (simp add: image_mset.compositionality comp_def)
  then show ?thesis
    using first_seen_distinct [of xs] by (metis mset_eq_imp_distinct_iff)
qed

lemma int_sum_list: "int (sum_list (map f ks)) = (\<Sum>k\<leftarrow>ks. int (f k))"
  by (induction ks) auto

lemma counts_sum: "(\<Sum>k\<leftarrow>first_seen xs. int (count_list xs k)) = int (length xs)"
proof -
  have "(\<Sum>k\<leftarrow>first_seen xs. count_list xs k) = sum (count_list xs) (set (first_seen xs))"
    by (rule sum_list_distinct_conv_sum_set) simp
  also have "\<dots> = length xs"
    by (simp add: sum_count_set)
  finally have "int (\<Sum>k\<leftarrow>first_seen xs. count_list xs k) = int (length xs)"
    by simp
  then show ?thesis
    by (simp add: int_sum_list)
qed

lemma value_counts_sum: "sum_list (map snd (value_counts xs)) = int (length xs)"
proof -
  have "mset (map snd (value_counts xs))
          = mset (map (\<lambda>k. int (count_list xs k)) (first_seen xs))"
    using arg_cong [OF value_counts_mset, of "image_mset snd" xs]
    by (simp add: image_mset.compositionality comp_def)
  then have "sum_list (map snd (value_counts xs))
               = (\<Sum>k\<leftarrow>first_seen xs. int (count_list xs k))"
    by (metis sum_mset_sum_list)
  then show ?thesis
    by (simp add: counts_sum)
qed

lemma value_counts_sorted: "sorted_wrt (\<lambda>a b. a \<ge> b) (map snd (value_counts xs))"
  unfolding value_counts_def by (rule sorted_desc_of_negated) (rule sorted_sort_key)

lemma value_counts_positive: "p \<in> set (value_counts xs) \<Longrightarrow> 1 \<le> snd p"
proof -
  assume "p \<in> set (value_counts xs)"
  then obtain k where k: "k \<in> set xs" and p: "p = (k, int (count_list xs k))"
    by (auto simp: value_counts_set)
  from k have "count_list xs k \<noteq> 0"
    by (simp add: count_list_0_iff)
  then show ?thesis
    by (simp add: p Suc_le_eq)
qed

lemma sorted_desc_take_drop:
  fixes xs :: "('a \<times> int) list"
  assumes "sorted_wrt (\<lambda>a b. a \<ge> b) (map snd xs)"
    and "p \<in> set (take n xs)" and "q \<in> set (drop n xs)"
  shows "snd q \<le> snd p"
proof -
  have "sorted_wrt (\<lambda>a b. a \<ge> b) (map snd (take n xs) @ map snd (drop n xs))"
    using assms(1) by (simp flip: map_append)
  then show ?thesis
    using assms(2,3) by (auto simp: sorted_wrt_append)
qed

lemma value_counts_rest:
  assumes "b \<in> set xs" and "b \<notin> fst ` set (take n (value_counts xs))"
  shows "(b, int (count_list xs b)) \<in> set (drop n (value_counts xs))"
proof -
  have "(b, int (count_list xs b)) \<in> set (value_counts xs)"
    using assms(1) by (simp add: value_counts_set)
  then have "(b, int (count_list xs b))
               \<in> set (take n (value_counts xs) @ drop n (value_counts xs))"
    by simp
  then show ?thesis
    using assms(2) by (force simp del: append_take_drop_id)
qed

text \<open>
  Claim C4, as the code has it. The case count is the number of distinct case ids and
  the event count the number of rows. The frequency mapping of the KPI record is
  \<^verbatim>\<open>activity_frequency_top10\<close>: it holds the ten most frequent activity labels (all of
  them when there are at most ten), each once and with its number of events. With at
  most ten distinct labels it has every label and its counts sum to the event count;
  with more than ten the sum is smaller.
\<close>

theorem kpi_counts_and_top10:
  "cases (compute_kpis df) = int (card (set (map case_concept_name df)))
   \<and> events (compute_kpis df) = int (length df)
   \<and> length (activity_frequency_top10 (compute_kpis df))
       = min 10 (card (set (map concept_name df)))
   \<and> distinct (map fst (activity_frequency_top10 (compute_kpis df)))
   \<and> (\<forall>p \<in> set (activity_frequency_top10 (compute_kpis df)).
         fst p \<in> set (map concept_name df)
         \<and> snd p = int (count_list (map concept_name df) (fst p)))
   \<and> (\<forall>p \<in> set (activity_frequency_top10 (compute_kpis df)).
       \<forall>b \<in> set (map concept_name df) - fst ` set (activity_frequency_top10 (compute_kpis df)).
         int (count_list (map concept_name df) b) \<le> snd p)
   \<and> (card (set (map concept_name df)) \<le> 10 \<longrightarrow>
         fst ` set (activity_frequency_top10 (compute_kpis df)) = set (map concept_name df)
         \<and> sum_list (map snd (activity_frequency_top10 (compute_kpis df)))
             = events (compute_kpis df))
   \<and> (10 < card (set (map concept_name df)) \<longrightarrow>
         sum_list (map snd (activity_frequency_top10 (compute_kpis df)))
           < events (compute_kpis df))"
proof -
  define acts where "acts = map concept_name df"
  define top10 where "top10 = activity_frequency_top10 (compute_kpis df)"
  have top10: "top10 = take 10 (value_counts acts)"
    by (simp add: top10_def acts_def compute_kpis_top10)
  have 1: "cases (compute_kpis df) = int (card (set (map case_concept_name df)))"
    by (simp add: compute_kpis_cases nunique_def first_seen_length)
  have 2: "events (compute_kpis df) = int (length df)"
    by (rule compute_kpis_events)
  have 3: "length top10 = min 10 (card (set acts))"
    by (simp add: top10 value_counts_length min.commute)
  have 4: "distinct (map fst top10)"
    using value_counts_distinct [of acts] by (simp add: top10 take_map [symmetric] distinct_take)
  have 5: "\<forall>p \<in> set top10. fst p \<in> set acts \<and> snd p = int (count_list acts (fst p))"
    using set_take_subset [of 10 "value_counts acts"] by (auto simp: top10 value_counts_set)
  have 6: "\<forall>p \<in> set top10. \<forall>b \<in> set acts - fst ` set top10. int (count_list acts b) \<le> snd p"
  proof (intro ballI)
    fix p b assume p: "p \<in> set top10" and b: "b \<in> set acts - fst ` set top10"
    have "(b, int (count_list acts b)) \<in> set (drop 10 (value_counts acts))"
      using b by (intro value_counts_rest) (auto simp: top10)
    from sorted_desc_take_drop [OF value_counts_sorted _ this, of p] p
    show "int (count_list acts b) \<le> snd p" by (simp add: top10)
  qed
  have 7: "card (set acts) \<le> 10 \<longrightarrow>
         fst ` set top10 = set acts \<and> sum_list (map snd top10) = events (compute_kpis df)"
  proof
    assume "card (set acts) \<le> 10"
    then have "top10 = value_counts acts"
      by (simp add: top10 value_counts_length)
    then show "fst ` set top10 = set acts \<and> sum_list (map snd top10) = events (compute_kpis df)"
      by (simp add: value_counts_set image_image value_counts_sum 2 acts_def)
  qed
  have 8: "10 < card (set acts) \<longrightarrow> sum_list (map snd top10) < events (compute_kpis df)"
  proof
    assume big: "10 < card (set acts)"
    let ?rest = "drop 10 (value_counts acts)"
    have "?rest \<noteq> []"
      using big by (simp add: value_counts_length)
    then obtain q qs where rest: "?rest = q # qs"
      by (cases ?rest) auto
    have pos: "\<forall>p \<in> set ?rest. 1 \<le> snd p"
      using set_drop_subset [of 10 "value_counts acts"] value_counts_positive [of _ acts]
      by blast
    have "0 \<le> sum_list (map snd qs)"
      using pos by (intro sum_list_nonneg) (auto simp: rest)
    moreover have "1 \<le> snd q"
      using pos by (simp add: rest)
    ultimately have "0 < sum_list (map snd ?rest)"
      by (simp add: rest)
    moreover have "sum_list (map snd (value_counts acts))
                     = sum_list (map snd top10) + sum_list (map snd ?rest)"
      unfolding top10 by (simp flip: sum_list_append map_append)
    ultimately show "sum_list (map snd top10) < events (compute_kpis df)"
      by (simp add: value_counts_sum 2 acts_def)
  qed
  show ?thesis
    using 1 2 3 4 5 6 7 8 unfolding acts_def top10_def by blast
qed

theorem kpi_counts_and_top10_witness:
  "cases (compute_kpis scenario_log) = 2
   \<and> events (compute_kpis scenario_log) = 5
   \<and> fst ` set (activity_frequency_top10 (compute_kpis scenario_log))
       = {''order'', ''ship'', ''close''}
   \<and> sum_list (map snd (activity_frequency_top10 (compute_kpis scenario_log))) = 5"
proof -
  have acts: "set (map concept_name scenario_log) = {''order'', ''ship'', ''close''}"
    by (auto simp: scenario_log_def)
  have ids: "set (map case_concept_name scenario_log) = {''A'', ''B''}"
    by (auto simp: scenario_log_def)
  have len: "length scenario_log = 5"
    by (simp add: scenario_log_def)
  show ?thesis
    using kpi_counts_and_top10 [of scenario_log] unfolding acts ids len by simp
qed

lemma eleven_top10:
  "activity_frequency_top10 (compute_kpis eleven_activities_log)
     = [(''a'', 1), (''b'', 1), (''c'', 1), (''d'', 1), (''e'', 1),
        (''f'', 1), (''g'', 1), (''h'', 1), (''i'', 1), (''j'', 1)]"
  by (simp add: compute_kpis_top10 eleven_activities_log_def value_counts_def first_seen_def)

text \<open>
  Claim C4 as stated fails on a log with eleven distinct activities: the label \<open>k\<close>
  occurs in the log and has no entry in the mapping, whose counts sum to 10 while the
  log has 11 events.
\<close>

theorem top10_drops_activities_counterexample:
  "''k'' \<in> set (map concept_name eleven_activities_log)
   \<and> ''k'' \<notin> fst ` set (activity_frequency_top10 (compute_kpis eleven_activities_log))
   \<and> sum_list (map snd (activity_frequency_top10 (compute_kpis eleven_activities_log))) = 10
   \<and> events (compute_kpis eleven_activities_log) = 11"
  by (simp add: eleven_top10 compute_kpis_events) (simp add: eleven_activities_log_def)

section \<open>Throughput of a case and its statistics\<close>

lemma sorted_Min_hd: "sorted xs \<Longrightarrow> xs \<noteq> [] \<Longrightarrow> Min (set xs) = hd xs"
  by (cases xs) (auto intro!: Min_eqI)

lemma sorted_Max_last: "sorted xs \<Longrightarrow> xs \<noteq> [] \<Longrightarrow> Max (set xs) = last xs"
proof -
  assume s: "sorted xs" and ne: "xs \<noteq> []"
  have "sorted (butlast xs @ [last xs])" using s ne by simp
  then have "\<forall>y \<in> set (butlast xs). y \<le> last xs"
    by (simp add: sorted_append)
  moreover have "set xs = insert (last xs) (set (butlast xs))"
    using ne by (metis append_butlast_last_id list.simps(15) rotate1.simps(2) set_rotate1)
  ultimately show ?thesis
    by (auto intro!: Max_eqI)
qed

lemma within_case_sorted_iff:
  "within_case_sorted df \<longleftrightarrow>
     (\<forall>c \<in> set (map case_concept_name df).
        sorted (map time_timestamp (filter (\<lambda>e. case_concept_name e = c) df)))"
  by (simp add: within_case_sorted_def list_all_iff)

lemma case_span_row:
  assumes "within_case_sorted df" and "c \<in> set (map case_concept_name df)"
  shows "(let g = map time_timestamp (filter (\<lambda>e. case_concept_name e = c) df)
          in total_seconds (Max (set g) - Min (set g)) / 3600) = case_throughput df c"
proof -
  define evs where "evs = filter (\<lambda>e. case_concept_name e = c) df"
  define g where "g = map time_timestamp evs"
  have ne: "evs \<noteq> []"
    using assms(2) by (auto simp: evs_def filter_empty_conv)
  have srt: "sorted g"
    using assms by (auto simp: within_case_sorted_iff g_def evs_def)
  have gne: "g \<noteq> []"
    using ne by (simp add: g_def)
  have mn: "Min (set g) = time_timestamp (hd evs)"
    using sorted_Min_hd [OF srt gne] ne by (simp add: g_def hd_map)
  have mx: "Max (set g) = time_timestamp (last evs)"
    using sorted_Max_last [OF srt gne] ne by (simp add: g_def last_map)
  show ?thesis
    unfolding case_throughput_def Let_def evs_def [symmetric] g_def [symmetric]
    by (simp add: mn mx)
qed

lemma case_span_throughputs:
  assumes "within_case_sorted df"
  shows "map (\<lambda>r. (span_case r, span_hours r)) (case_span df) = case_throughputs df"
proof -
  have "\<forall>c \<in> set (sort (remdups (map case_concept_name df))).
          c \<in> set (map case_concept_name df)"
    by simp
  then show ?thesis
    unfolding case_span_def case_throughputs_def map_map
    by (intro map_cong refl) (use case_span_row [OF assms] in \<open>simp add: Let_def\<close>)
qed

text \<open>
  Claim C6. In a log whose cases are each in ascending order of timestamp, the frame
  \<^verbatim>\<open>case_span\<close> that \<^verbatim>\<open>compute_kpis\<close> builds has exactly one row for every case of the
  log, and the throughput in that row is the timestamp of the case's last event minus
  the timestamp of its first event, in seconds divided by 3600; for a case of one
  event it is 0. The throughput statistics of the KPI record are the statistics of
  these values.
\<close>

theorem throughput_is_last_minus_first:
  assumes "within_case_sorted df"
  shows "map (\<lambda>r. (span_case r, span_hours r)) (case_span df) = case_throughputs df
       \<and> map fst (case_throughputs df) = sort (remdups (map case_concept_name df))
       \<and> throughput_hours (compute_kpis df) =
           \<lparr>mean = Some (series_mean (map snd (case_throughputs df))),
            median = Some (series_median (map snd (case_throughputs df))),
            min_hours = Some (series_min (map snd (case_throughputs df))),
            max_hours = Some (series_max (map snd (case_throughputs df))),
            p95 = Some (series_quantile (95 / 100) (map snd (case_throughputs df)))\<rparr>
       \<and> (\<forall>r \<in> set (case_span df).
             length (filter (\<lambda>e. case_concept_name e = span_case r) df) = 1
               \<longrightarrow> span_hours r = 0)"
proof -
  have rows: "map (\<lambda>r. (span_case r, span_hours r)) (case_span df) = case_throughputs df"
    using assms by (rule case_span_throughputs)
  have keys: "map fst (case_throughputs df) = sort (remdups (map case_concept_name df))"
    by (simp add: case_throughputs_def comp_def)
  have "map span_hours (case_span df) = map snd (case_throughputs df)"
    using arg_cong [OF rows, of "map snd"] by (simp add: comp_def)
  then have stats: "throughput_hours (compute_kpis df) =
           \<lparr>mean = Some (series_mean (map snd (case_throughputs df))),
            median = Some (series_median (map snd (case_throughputs df))),
            min_hours = Some (series_min (map snd (case_throughputs df))),
            max_hours = Some (series_max (map snd (case_throughputs df))),
            p95 = Some (series_quantile (95 / 100) (map snd (case_throughputs df)))\<rparr>"
    by (simp add: compute_kpis_throughput)
  have single: "\<forall>r \<in> set (case_span df).
             length (filter (\<lambda>e. case_concept_name e = span_case r) df) = 1
               \<longrightarrow> span_hours r = 0"
  proof (intro ballI impI)
    fix r assume r: "r \<in> set (case_span df)"
      and one: "length (filter (\<lambda>e. case_concept_name e = span_case r) df) = 1"
    from r have "(span_case r, span_hours r) \<in> set (case_throughputs df)"
      unfolding rows [symmetric] by force
    then have h: "span_hours r = case_throughput df (span_case r)"
      by (auto simp: case_throughputs_def)
    from one obtain e where "filter (\<lambda>e. case_concept_name e = span_case r) df = [e]"
      by (cases "filter (\<lambda>e. case_concept_name e = span_case r) df") auto
    then show "span_hours r = 0"
      by (simp add: h case_throughput_def total_seconds_def)
  qed
  show ?thesis
    using rows keys stats single by blast
qed

lemma series_quantile_linear:
  assumes "xs \<noteq> []" and "0 \<le> q" and "q \<le> 1"
  shows "series_quantile q xs = Fin (linear_percentile q xs)"
proof -
  define s where "s = sort xs"
  define n where "n = length s"
  define pos where "pos = q * of_nat (n - 1)"
  have n: "1 \<le> n" using assms(1) by (cases xs) (auto simp: n_def s_def)
  have pos0: "0 \<le> pos" using assms(2) by (simp add: pos_def)
  have posn: "pos \<le> of_nat (n - 1)"
    using mult_right_mono [OF assms(3), of "of_nat (n - 1)"] by (simp add: pos_def)
  have fl: "of_nat (nat \<lfloor>pos\<rfloor>) = (of_int \<lfloor>pos\<rfloor> :: rat)"
    using pos0 by simp
  have "Fin (s ! nat \<lfloor>pos\<rfloor> + (s ! min (nat \<lfloor>pos\<rfloor> + 1) (n - 1) - s ! nat \<lfloor>pos\<rfloor>) * (pos - of_nat (nat \<lfloor>pos\<rfloor>)))
      = Fin (s ! nat \<lfloor>pos\<rfloor> + (pos - of_nat (nat \<lfloor>pos\<rfloor>)) * (s ! nat \<lceil>pos\<rceil> - s ! nat \<lfloor>pos\<rfloor>))"
  proof (cases "pos = of_int \<lfloor>pos\<rfloor>")
    case True
    then have "pos - of_nat (nat \<lfloor>pos\<rfloor>) = 0" using fl by simp
    then show ?thesis by simp
  next
    case False
    then have ce: "\<lceil>pos\<rceil> = \<lfloor>pos\<rfloor> + 1"
      unfolding ceiling_altdef by (simp only: if_False)
    have "of_int \<lfloor>pos\<rfloor> < pos"
      by (rule le_neq_trans [OF of_int_floor_le]) (rule False [symmetric])
    then have "of_int \<lfloor>pos\<rfloor> < (of_nat (n - 1) :: rat)" using posn by simp
    then have "\<lfloor>pos\<rfloor> < int (n - 1)"
      by (metis of_int_less_iff of_int_of_nat_eq)
    then have "nat \<lfloor>pos\<rfloor> + 1 \<le> n - 1" using pos0 by linarith
    then have mn: "min (nat \<lfloor>pos\<rfloor> + 1) (n - 1) = nat \<lfloor>pos\<rfloor> + 1" by simp
    have "nat \<lceil>pos\<rceil> = nat \<lfloor>pos\<rfloor> + 1"
      using pos0 by (simp add: ce nat_add_distrib)
    then show ?thesis unfolding mn by (simp add: mult.commute)
  qed
  then show ?thesis
    using assms(1)
    by (simp add: series_quantile_def linear_percentile_def Let_def s_def n_def pos_def)
qed

lemma series_median_linear:
  assumes "xs \<noteq> []"
  shows "series_median xs = Fin (linear_percentile (1 / 2) xs)"
proof -
  define s where "s = sort xs"
  define n where "n = length s"
  have n: "1 \<le> n" using assms(1) by (cases xs) (auto simp: n_def s_def)
  show ?thesis
  proof (cases "odd n")
    case True
    then obtain k where k: "n = 2 * k + 1" by (auto elim: oddE)
    have pos: "(1 / 2 :: rat) * of_nat (n - 1) = of_nat k" by (simp add: k)
    show ?thesis
      using assms True
      unfolding series_median_def linear_percentile_def Let_def s_def [symmetric] n_def [symmetric] pos
      by (simp add: k)
  next
    case False
    then obtain k where k: "n = 2 * k" by (auto elim: evenE)
    with n have k1: "1 \<le> k" by simp
    then obtain j where j: "k = Suc j" by (cases k) auto
    have pos: "(1 / 2 :: rat) * of_nat (n - 1) = of_nat j + 1 / 2"
      by (simp add: k j field_simps)
    have fl: "\<lfloor>(of_nat j + 1 / 2 :: rat)\<rfloor> = int j"
      by (rule floor_unique) simp_all
    have ce: "\<lceil>(of_nat j + 1 / 2 :: rat)\<rceil> = int j + 1"
      by (rule ceiling_unique) simp_all
    show ?thesis
      using assms False
      unfolding series_median_def linear_percentile_def Let_def s_def [symmetric] n_def [symmetric] pos fl ce
      by (simp add: k j field_simps nat_add_distrib)
  qed
qed

text \<open>
  Claim C7. For a non-empty series of case throughputs the median and the 95th
  percentile of the KPI record are the linearly interpolated percentiles at
  \<open>p = 1/2\<close> and \<open>p = 95/100\<close>.
\<close>

theorem median_and_p95_are_linear_percentiles:
  assumes "case_span df \<noteq> []"
  shows "median (throughput_hours (compute_kpis df))
           = Some (Fin (linear_percentile (1 / 2) (map span_hours (case_span df))))
       \<and> p95 (throughput_hours (compute_kpis df))
           = Some (Fin (linear_percentile (95 / 100) (map span_hours (case_span df))))"
proof -
  have ne: "map span_hours (case_span df) \<noteq> []"
    using assms by simp
  show ?thesis
    by (simp add: compute_kpis_throughput series_median_linear [OF ne]
          series_quantile_linear [OF ne])
qed

lemma scenario_case_span:
  "case_span scenario_log =
     [\<lparr>span_case = ''A'', span_start = 36000000000000, span_end = 46800000000000,
       span_hours = 3\<rparr>,
      \<lparr>span_case = ''B'', span_start = 32400000000000, span_end = 34200000000000,
       span_hours = 1 / 2\<rparr>]"
  by (simp add: case_span_def scenario_log_def total_seconds_def)

lemma scenario_within_case_sorted: "within_case_sorted scenario_log"
  by (simp add: within_case_sorted_def first_seen_def scenario_log_def)

theorem median_and_p95_are_linear_percentiles_witness:
  "case_span scenario_log \<noteq> []
   \<and> median (throughput_hours (compute_kpis scenario_log)) = Some (Fin (7 / 4))
   \<and> p95 (throughput_hours (compute_kpis scenario_log)) = Some (Fin (23 / 8))"
proof -
  have ne: "case_span scenario_log \<noteq> []"
    by (simp add: scenario_case_span)
  have m: "linear_percentile (1 / 2) [3, 1 / 2] = 7 / 4"
    by code_simp
  have p: "linear_percentile (19 / 20) [3, 1 / 2] = 23 / 8"
    by code_simp
  show ?thesis
    using ne median_and_p95_are_linear_percentiles [OF ne] by (simp add: scenario_case_span m p)
qed

theorem throughput_is_last_minus_first_witness:
  "within_case_sorted scenario_log
   \<and> map (\<lambda>r. (span_case r, span_hours r)) (case_span scenario_log)
       = [(''A'', 3), (''B'', 1 / 2)]
   \<and> case_throughputs scenario_log = [(''A'', 3), (''B'', 1 / 2)]
   \<and> mean (throughput_hours (compute_kpis scenario_log)) = Some (Fin (7 / 4))"
proof -
  have t: "case_throughputs scenario_log = [(''A'', 3), (''B'', 1 / 2)]"
    by (simp add: case_throughputs_def case_throughput_def scenario_log_def total_seconds_def)
  show ?thesis
    using scenario_within_case_sorted
      throughput_is_last_minus_first [OF scenario_within_case_sorted]
    by (simp add: t series_mean_def)
qed

end
